theory Spec2Isabelle
  imports Main "HOL-Library.Multiset"
begin

section \<open>Tensors\<close>

text \<open>
  A tensor is its shape together with its elements in row-major (C) order, which is the
  layout for which \<open>tf.reshape\<close> keeps the element sequence and changes the shape only.
\<close>

datatype 'a tensor = Tensor (shape: "nat list") (data: "'a list")

definition wf_tensor :: "'a tensor \<Rightarrow> bool" where
  "wf_tensor t = (length (data t) = prod_list (shape t))"

text \<open>
  Row-major addressing: \<open>ravel s idx\<close> is the position of the element with multi-index
  \<open>idx\<close> in a tensor of shape \<open>s\<close>, and \<open>unravel s f\<close> the multi-index at position \<open>f\<close>.
\<close>

fun ravel :: "nat list \<Rightarrow> nat list \<Rightarrow> nat" where
  "ravel (d # ds) (i # is) = i * prod_list ds + ravel ds is"
| "ravel _ _ = 0"

fun unravel :: "nat list \<Rightarrow> nat \<Rightarrow> nat list" where
  "unravel [] f = []"
| "unravel (d # ds) f = (f div prod_list ds) # unravel ds (f mod prod_list ds)"

definition valid_index :: "nat list \<Rightarrow> nat list \<Rightarrow> bool" where
  "valid_index s idx = list_all2 (\<lambda>i d. i < d) idx s"

definition at :: "'a tensor \<Rightarrow> nat list \<Rightarrow> 'a" where
  "at t idx = data t ! ravel (shape t) idx"

definition tabulate :: "nat list \<Rightarrow> (nat list \<Rightarrow> 'a) \<Rightarrow> 'a tensor" where
  "tabulate s F = Tensor s (map (\<lambda>f. F (unravel s f)) [0..<prod_list s])"

text \<open>
  Failures. The spec names two error kinds. \<open>ShapeError\<close> is the kind that the source
  signals with Python's AssertionError at the failed assertions of lines 81 and 110
  (\<open>NotSquare\<close>) and with the errors that TensorFlow and numpy raise for incompatible
  shapes in \<open>tf.reshape\<close>, \<open>tf.space_to_batch_nd\<close>, \<open>tf.split\<close>, \<open>tf.stack\<close>,
  \<open>tf.math.equal\<close> and \<open>np.equal\<close>; the argument records which of them it was.
  \<open>BadPatches\<close> and \<open>BadPatchCount\<close> are the shape errors of the reconstruction.
\<close>

datatype shape_cause =
  NotSquare | BadReshape | BadBlockShape | BadSplit | BadStack | BadBroadcast
  | BadPatches | BadPatchCount

datatype error = ShapeError shape_cause | UnsupportedMeasureError

subsection \<open>tf.reshape\<close>

text \<open>
  \<open>tf.reshape(t, dims)\<close>: at most one entry of \<open>dims\<close> is \<open>-1\<close> and is inferred from the
  number of elements; no other entry is negative; the element count is kept. With a
  \<open>-1\<close> the other entries must have a non-zero product that divides the element count.
\<close>

definition tf_reshape :: "'a tensor \<Rightarrow> int list \<Rightarrow> error + 'a tensor" where
  "tf_reshape t dims =
     (let total = length (data t);
          known = filter (\<lambda>d. d \<noteq> - 1) dims;
          k = prod_list (map nat known)
      in if list_ex (\<lambda>d. d < 0) known then Inl (ShapeError BadReshape)
         else if length known = length dims then
           (if k = total then Inr (Tensor (map nat dims) (data t))
            else Inl (ShapeError BadReshape))
         else if length known + 1 = length dims then
           (if k = 0 then Inl (ShapeError BadReshape)
            else if total mod k = 0 then
              Inr (Tensor (map (\<lambda>d. if d = - 1 then total div k else nat d) dims) (data t))
            else Inl (ShapeError BadReshape))
         else Inl (ShapeError BadReshape))"

subsection \<open>tf.stack\<close>

text \<open>
  \<open>tf.stack(ts, axis)\<close>: the tensors have one shape \<open>s\<close>; the result has shape
  \<open>s[:axis] + [len(ts)] + s[axis:]\<close>, and its element at a multi-index is the element of
  \<open>ts[k]\<close>, for \<open>k\<close> the entry at \<open>axis\<close>, at the multi-index without that entry.
  A Python list of tensors passed where a tensor is expected is packed along axis 0.
\<close>

definition tf_stack :: "'a tensor list \<Rightarrow> nat \<Rightarrow> error + 'a tensor" where
  "tf_stack ts axis =
     (if ts = [] then Inl (ShapeError BadStack)
      else
        (let s = shape (hd ts); n = length ts
         in if list_ex (\<lambda>u. shape u \<noteq> s) ts then Inl (ShapeError BadStack)
            else if length s < axis then Inl (ShapeError BadStack)
            else Inr (tabulate (take axis s @ [n] @ drop axis s)
                   (\<lambda>idx. at (ts ! (idx ! axis)) (take axis idx @ drop (Suc axis) idx)))))"

definition convert_to_tensor :: "'a tensor list \<Rightarrow> error + 'a tensor" where
  "convert_to_tensor ts = tf_stack ts 0"

subsection \<open>tf.space_to_batch_nd\<close>

text \<open>
  \<open>tf.space_to_batch_nd(input, block_shape, paddings)\<close> for an input of shape
  \<open>[batch, H, W, C]\<close> and two block dimensions, as the source calls it. The documented
  steps are: zero-pad the spatial dimensions by \<open>paddings\<close> to \<open>Hp\<close>, \<open>Wp\<close>; reshape to
  \<open>[batch, Hp/bh, bh, Wp/bw, bw, C]\<close>; permute to \<open>[bh, bw, batch, Hp/bh, Wp/bw, C]\<close>;
  reshape to \<open>[batch*bh*bw, Hp/bh, Wp/bw, C]\<close>. So the output at
  \<open>[(bi*bw + bj)*batch + b, i, j, c]\<close> is the padded input at \<open>[b, i*bh + bi, j*bw + bj, c]\<close>.
  Block sizes must be at least 1 and divide the padded sizes; paddings are not negative.
\<close>

definition space_to_batch_nd ::
  "'a::zero tensor \<Rightarrow> int list \<Rightarrow> int list list \<Rightarrow> error + 'a tensor" where
  "space_to_batch_nd inp block_shape paddings =
     (case (shape inp, block_shape, paddings) of
        ([B, H, W, C], [bh, bw], [[pt, pb], [pl, pr]]) \<Rightarrow>
          (if bh < 1 \<or> bw < 1 \<or> pt < 0 \<or> pb < 0 \<or> pl < 0 \<or> pr < 0
           then Inl (ShapeError BadBlockShape)
           else
             (let bh = nat bh; bw = nat bw; pt = nat pt; pb = nat pb; pl = nat pl; pr = nat pr;
                  Hp = pt + H + pb; Wp = pl + W + pr
              in if Hp mod bh = 0 \<and> Wp mod bw = 0 then
                   Inr (tabulate [B * bh * bw, Hp div bh, Wp div bw, C]
                     (\<lambda>idx.
                        (let n = idx ! 0; i = idx ! 1; j = idx ! 2; c = idx ! 3;
                             b = n mod B; bj = (n div B) mod bw; bi = (n div B) div bw;
                             y = i * bh + bi; x = j * bw + bj
                         in if pt \<le> y \<and> y < pt + H \<and> pl \<le> x \<and> x < pl + W
                            then at inp [b, y - pt, x - pl, c]
                            else 0)))
                 else Inl (ShapeError BadBlockShape)))
      | _ \<Rightarrow> Inl (ShapeError BadBlockShape))"

subsection \<open>tf.split\<close>

text \<open>
  \<open>tf.split(t, num, 0)\<close> with an integer \<open>num\<close>: \<open>num\<close> equal parts along axis 0, which
  \<open>num\<close> must divide; part \<open>k\<close> holds the entries \<open>k*q ..< (k+1)*q\<close> of axis 0.
\<close>

definition tf_split :: "'a tensor \<Rightarrow> int \<Rightarrow> error + 'a tensor list" where
  "tf_split t num =
     (case shape t of
        [] \<Rightarrow> Inl (ShapeError BadSplit)
      | d # ds \<Rightarrow>
          (if num < 1 then Inl (ShapeError BadSplit)
           else if d mod nat num = 0 then
             (let q = d div nat num
              in Inr (map (\<lambda>k. tabulate (q # ds) (\<lambda>idx. at t (idx[0 := k * q + idx ! 0])))
                        [0..<nat num]))
           else Inl (ShapeError BadSplit)))"

section \<open>generate_patches_v2\<close>

text \<open>
  Lines 49-98 of \<open>patch_proposals.py\<close>. The arguments \<open>input_h\<close>, \<open>input_w\<close>, \<open>patch_h\<close>,
  \<open>patch_w\<close> are Python integers. With \<open>debug\<close> the source first decodes the image from
  its file bytes; the model takes the image tensor. Logging has no effect on the result.
\<close>

definition generate_patches_v2 ::
  "'a::zero tensor \<Rightarrow> int \<Rightarrow> int \<Rightarrow> int \<Rightarrow> int \<Rightarrow> bool \<Rightarrow> error + 'a tensor" where
  "generate_patches_v2 img input_h input_w patch_h patch_w pad =
     (case tf_reshape img [input_h, input_w, 3] of
        Inl e \<Rightarrow> Inl e
      | Inr img \<Rightarrow>
          (let padding = [[0, 0], [0, 0]];
               image_h = shape img ! 0;
               image_w = shape img ! 1;
               image_ch = shape img ! 2;
               p_area = patch_h * patch_w
           in if \<not> (image_h = image_w \<and> patch_h = patch_w) then Inl (ShapeError NotSquare)
              else
                (case (if pad
                       then (case convert_to_tensor [img] of Inl e \<Rightarrow> Inl e
                             | Inr x \<Rightarrow> space_to_batch_nd x [patch_h, patch_w] padding)
                       else (case convert_to_tensor [img] of Inl e \<Rightarrow> Inl e
                             | Inr x \<Rightarrow> space_to_batch_nd x [patch_h, patch_w] padding)) of
                   Inl e \<Rightarrow> Inl e
                 | Inr patches \<Rightarrow>
                     (case tf_split patches p_area of
                        Inl e \<Rightarrow> Inl e
                      | Inr patches \<Rightarrow>
                          (case tf_stack patches 3 of
                             Inl e \<Rightarrow> Inl e
                           | Inr patches \<Rightarrow>
                               tf_reshape patches [- 1, patch_h, patch_w, int image_ch])))))"

section \<open>Data conservation checks\<close>

text \<open>
  \<open>np.equal\<close> and \<open>tf.math.equal\<close> compare elementwise after broadcasting: the shapes are
  aligned at their last dimensions, two dimensions are compatible when they are equal or
  one of them is 1, and a dimension of size 1 (or a missing one) is repeated. Shapes
  that are not compatible are an error. \<open>np.all\<close> and \<open>tf.reduce_all\<close> are the conjunction
  of all elements.
\<close>

fun broadcast_rev :: "nat list \<Rightarrow> nat list \<Rightarrow> nat list option" where
  "broadcast_rev [] ys = Some ys"
| "broadcast_rev xs [] = Some xs"
| "broadcast_rev (x # xs) (y # ys) =
     (if x = y \<or> y = 1 then map_option (\<lambda>r. x # r) (broadcast_rev xs ys)
      else if x = 1 then map_option (\<lambda>r. y # r) (broadcast_rev xs ys)
      else None)"

definition broadcast_shapes :: "nat list \<Rightarrow> nat list \<Rightarrow> nat list option" where
  "broadcast_shapes a b = map_option rev (broadcast_rev (rev a) (rev b))"

definition broadcast_at :: "'a tensor \<Rightarrow> nat list \<Rightarrow> 'a" where
  "broadcast_at t idx =
     at t (map2 (\<lambda>d i. if d = 1 then 0 else i) (shape t)
             (drop (length idx - length (shape t)) idx))"

definition broadcast_equal :: "'a tensor \<Rightarrow> 'a tensor \<Rightarrow> error + bool tensor" where
  "broadcast_equal a b =
     (case broadcast_shapes (shape a) (shape b) of
        None \<Rightarrow> Inl (ShapeError BadBroadcast)
      | Some s \<Rightarrow> Inr (tabulate s (\<lambda>idx. broadcast_at a idx = broadcast_at b idx)))"

definition map_tensor :: "('a \<Rightarrow> 'b) \<Rightarrow> 'a tensor \<Rightarrow> 'b tensor" where
  "map_tensor f t = Tensor (shape t) (map f (data t))"

text \<open>
  The two libraries differ in how they bring operands of two element types (dtypes) to
  one. \<open>np.equal(x, y)\<close> converts both operands to their common dtype
  (\<open>np.result_type\<close>) and compares there. \<open>tf.math.equal(x, y)\<close> keeps the dtype of \<open>x\<close>
  and converts \<open>y\<close> to it (a numpy operand by \<open>astype\<close>). The conversions are the
  function arguments of the two definitions; for operands of one dtype they are the
  identity.
\<close>

definition np_equal ::
  "('a \<Rightarrow> 'c) \<Rightarrow> ('b \<Rightarrow> 'c) \<Rightarrow> 'a tensor \<Rightarrow> 'b tensor \<Rightarrow> error + bool tensor" where
  "np_equal to_common_x to_common_y x y =
     broadcast_equal (map_tensor to_common_x x) (map_tensor to_common_y y)"

definition np_all :: "bool tensor \<Rightarrow> bool" where
  "np_all t = list_all (\<lambda>x. x) (data t)"

definition tf_math_equal :: "('b \<Rightarrow> 'a) \<Rightarrow> 'a tensor \<Rightarrow> 'b tensor \<Rightarrow> error + bool tensor" where
  "tf_math_equal to_dtype_of_x x y = broadcast_equal x (map_tensor to_dtype_of_x y)"

definition tf_reduce_all :: "bool tensor \<Rightarrow> bool" where
  "tf_reduce_all t = fold (\<lambda>x acc. acc \<and> x) (data t) True"

text \<open>
  Lines 101-106 of \<open>patch_proposals.py\<close>, on two arrays of one element type, as an image
  and its reconstruction are: no conversion takes place.
\<close>

definition image_data_conserved :: "'a tensor \<Rightarrow> 'a tensor \<Rightarrow> error + bool" where
  "image_data_conserved original reconstructed =
     (case tf_math_equal (\<lambda>v. v) original reconstructed of
        Inl e \<Rightarrow> Inl e | Inr eq \<Rightarrow> Inr (tf_reduce_all eq))"

definition reconstruction_conserves_data :: "'a tensor \<Rightarrow> 'a tensor \<Rightarrow> error + bool" where
  "reconstruction_conserves_data original reconstructed =
     (case np_equal (\<lambda>v. v) (\<lambda>v. v) original reconstructed of
        Inl e \<Rightarrow> Inl e | Inr eq \<Rightarrow> Inr (np_all eq))"

text \<open>
  The same two functions on numpy arrays that carry a dtype, for the integer dtypes
  \<open>uint8\<close> and \<open>int32\<close>. An array is its dtype and its values; \<open>astype\<close> is the
  conversion of a value to a dtype, which wraps around; the common dtype of \<open>uint8\<close> and
  \<open>int32\<close> is \<open>int32\<close>, which holds every value of both.
\<close>

datatype dtype = UInt8 | Int32

datatype ndarray = NDArray (dtype_of: dtype) (values_of: "int tensor")

fun astype :: "dtype \<Rightarrow> int \<Rightarrow> int" where
  "astype UInt8 v = v mod 256"
| "astype Int32 v = (v + 2147483648) mod 4294967296 - 2147483648"

fun in_range :: "dtype \<Rightarrow> int \<Rightarrow> bool" where
  "in_range UInt8 v = (0 \<le> v \<and> v < 256)"
| "in_range Int32 v = (- 2147483648 \<le> v \<and> v < 2147483648)"

definition valid_ndarray :: "ndarray \<Rightarrow> bool" where
  "valid_ndarray x = list_all (in_range (dtype_of x)) (data (values_of x))"

fun result_type :: "dtype \<Rightarrow> dtype \<Rightarrow> dtype" where
  "result_type UInt8 UInt8 = UInt8"
| "result_type _ _ = Int32"

definition image_data_conserved_dtypes :: "ndarray \<Rightarrow> ndarray \<Rightarrow> error + bool" where
  "image_data_conserved_dtypes original reconstructed =
     (case tf_math_equal (astype (dtype_of original))
             (values_of original) (values_of reconstructed) of
        Inl e \<Rightarrow> Inl e | Inr eq \<Rightarrow> Inr (tf_reduce_all eq))"

definition reconstruction_conserves_data_dtypes :: "ndarray \<Rightarrow> ndarray \<Rightarrow> error + bool" where
  "reconstruction_conserves_data_dtypes original reconstructed =
     (let common = result_type (dtype_of original) (dtype_of reconstructed)
      in case np_equal (astype common) (astype common)
                (values_of original) (values_of reconstructed) of
           Inl e \<Rightarrow> Inl e | Inr eq \<Rightarrow> Inr (np_all eq))"

section \<open>Reconstruction\<close>

text \<open>
  \<open>reconstruct_from_patches\<close> is imported from the module \<open>curriculum_factory\<close> and
  \<open>Measure\<close> from \<open>deepclo\<close>; neither is in \<open>patch_proposals.py\<close>, which only calls them.
\<close>

text \<open>
  Modelled from the spec: the enumeration \<open>Measure\<close> of \<open>deepclo\<close>, which section 3 gives
  as the ten identifiers KL, MI, CE, L1, L2, MAX_NORM, JE, ENTROPY, SSIM, PSNR.
\<close>

datatype Measure = KL | MI | CE | L1 | L2 | MAX_NORM | JE | ENTROPY | SSIM | PSNR

text \<open>
  Modelled from the spec: the ordering strategy of \<open>reconstruct_from_patches\<close>, which
  section 4.2 gives as the identity (row-major) ordering or the ordering of the patches by
  their score under the measure.
\<close>

datatype ordering = Identity | ByMeasure

text \<open>
  Modelled from the spec: the measure identifiers that \<open>reconstruct_from_patches\<close>
  accepts; any identifier other than the ten of section 3 is unknown.
\<close>

definition measure_of :: "string \<Rightarrow> Measure option" where
  "measure_of name =
     map_of [(''KL'', KL), (''MI'', MI), (''CE'', CE), (''L1'', L1), (''L2'', L2),
             (''MAX_NORM'', MAX_NORM), (''JE'', JE), (''ENTROPY'', ENTROPY),
             (''SSIM'', SSIM), (''PSNR'', PSNR)] name"

text \<open>
  The patch sequence of a batch of patches of shape \<open>[n, patch_h, patch_w, channels]\<close>, as
  \<open>generate_patches_v2\<close> returns it: patch \<open>k\<close> is the entry \<open>k\<close> of axis 0.
\<close>

definition unstack :: "'a tensor \<Rightarrow> 'a tensor list" where
  "unstack t =
     map (\<lambda>k. tabulate (tl (shape t)) (\<lambda>idx. at t (k # idx))) [0..<hd (shape t)]"

text \<open>
  Modelled from the spec: the placement step of \<open>reconstruct_from_patches\<close> (section 4.2),
  which puts each patch of the sequence into the grid cell of its row-major position:
  the pixel \<open>(y, x)\<close> of the result lies in the cell at grid row \<open>y div patch_h\<close> and grid
  column \<open>x div patch_w\<close>.
\<close>

definition place :: "'a tensor list \<Rightarrow> nat \<Rightarrow> nat \<Rightarrow> nat \<Rightarrow> nat \<Rightarrow> nat \<Rightarrow> 'a tensor" where
  "place seq height width patch_h patch_w ch =
     tabulate [height, width, ch]
       (\<lambda>idx. (let y = idx ! 0; x = idx ! 1; c = idx ! 2
               in at (seq ! ((y div patch_h) * (width div patch_w) + x div patch_w))
                     [y mod patch_h, x mod patch_w, c]))"

text \<open>
  Modelled from the spec: \<open>reconstruct_from_patches\<close> of \<open>curriculum_factory\<close>, which is
  not among the sources. Section 4.2: an unknown measure identifier is an
  UnsupportedMeasureError; the patch size is that of the patches; the patch count must be
  \<open>(height/patch_h)*(width/patch_w)\<close>, and the sizes divide exactly (section 3), or the call
  is a ShapeError; under a measure-driven ordering the patches are sorted by their score,
  stably (\<open>sort_key\<close> is a stable insertion sort); then each patch is placed at its
  row-major grid position. The measure evaluator is external: it is the parameter
  \<open>score\<close>, which gets the measure, the whole sequence and the patch to score.
\<close>

definition reconstruct_from_patches ::
  "(Measure \<Rightarrow> 'a tensor list \<Rightarrow> 'a tensor \<Rightarrow> 's::linorder) \<Rightarrow> 'a tensor \<Rightarrow> int \<Rightarrow> int
     \<Rightarrow> string \<Rightarrow> ordering \<Rightarrow> error + 'a tensor" where
  "reconstruct_from_patches score patches height width measure_id order_by =
     (case measure_of measure_id of
        None \<Rightarrow> Inl UnsupportedMeasureError
      | Some m \<Rightarrow>
          (case shape patches of
             [n, patch_h, patch_w, ch] \<Rightarrow>
               (if height < 0 \<or> width < 0 \<or> patch_h = 0 \<or> patch_w = 0
                   \<or> length (data patches) \<noteq> n * patch_h * patch_w * ch
                then Inl (ShapeError BadPatches)
                else if n \<noteq> (nat height div patch_h) * (nat width div patch_w)
                then Inl (ShapeError BadPatchCount)
                else if nat height mod patch_h \<noteq> 0 \<or> nat width mod patch_w \<noteq> 0
                then Inl (ShapeError BadPatches)
                else
                  (let seq = unstack patches;
                       ordered = (case order_by of
                                    Identity \<Rightarrow> seq
                                  | ByMeasure \<Rightarrow> sort_key (score m seq) seq)
                   in Inr (place ordered (nat height) (nat width) patch_h patch_w ch)))
           | _ \<Rightarrow> Inl (ShapeError BadPatches)))"

text \<open>
  Lines 109-115 of \<open>patch_proposals.py\<close>: the assertion on the patch size, the split
  (with the default \<open>pad=False\<close>) and the reconstruction.
\<close>

definition p_por ::
  "(Measure \<Rightarrow> 'a tensor list \<Rightarrow> 'a tensor \<Rightarrow> 's::linorder) \<Rightarrow> 'a::zero tensor \<Rightarrow> int \<Rightarrow> int
     \<Rightarrow> string \<Rightarrow> ordering \<Rightarrow> int \<Rightarrow> int \<Rightarrow> error + 'a tensor" where
  "p_por score img height width measure_id order_by patch_h patch_w =
     (if patch_h \<noteq> patch_w then Inl (ShapeError NotSquare)
      else
        (case generate_patches_v2 img height width patch_h patch_w False of
           Inl e \<Rightarrow> Inl e
         | Inr patches \<Rightarrow>
             reconstruct_from_patches score patches height width measure_id order_by))"

text \<open>
  The blocks of an image in row-major grid order: block \<open>k\<close> is the cell at grid row
  \<open>k div (width/patch_w)\<close> and grid column \<open>k mod (width/patch_w)\<close>.
\<close>

definition grid_blocks :: "'a tensor \<Rightarrow> nat \<Rightarrow> nat \<Rightarrow> 'a tensor list" where
  "grid_blocks img patch_h patch_w =
     (let gh = shape img ! 0 div patch_h; gw = shape img ! 1 div patch_w
      in map (\<lambda>k. tabulate [patch_h, patch_w, shape img ! 2]
                    (\<lambda>idx. at img [(k div gw) * patch_h + idx ! 0,
                                    (k mod gw) * patch_w + idx ! 1, idx ! 2]))
           [0..<gh * gw])"

section \<open>Addressing lemmas\<close>

lemma valid_index_Nil [simp]: "valid_index [] idx = (idx = [])"
  by (simp add: valid_index_def)

lemma valid_index_Cons:
  "valid_index (d # ds) idx = (\<exists>i is. idx = i # is \<and> i < d \<and> valid_index ds is)"
  by (auto simp: valid_index_def list_all2_Cons2)

lemma valid_index_Cons_Cons [simp]:
  "valid_index (d # ds) (i # is) = (i < d \<and> valid_index ds is)"
  by (simp add: valid_index_def)

lemma valid_index_length: "valid_index s idx \<Longrightarrow> length idx = length s"
  by (simp add: valid_index_def list_all2_lengthD)

lemma ravel_less: "valid_index s idx \<Longrightarrow> ravel s idx < prod_list s"
proof (induction s arbitrary: idx)
  case Nil
  then show ?case by simp
next
  case (Cons d ds)
  then obtain i "is" where idx: "idx = i # is" and i: "i < d" and v: "valid_index ds is"
    by (auto simp: valid_index_Cons)
  have r: "ravel ds is < prod_list ds" using Cons.IH [OF v] .
  have "i * prod_list ds + ravel ds is < Suc i * prod_list ds" using r by simp
  also have "\<dots> \<le> d * prod_list ds" using i by (intro mult_le_mono1) simp
  finally show ?case by (simp add: idx)
qed

lemma unravel_ravel: "valid_index s idx \<Longrightarrow> unravel s (ravel s idx) = idx"
proof (induction s arbitrary: idx)
  case Nil
  then show ?case by simp
next
  case (Cons d ds)
  then obtain i "is" where idx: "idx = i # is" and i: "i < d" and v: "valid_index ds is"
    by (auto simp: valid_index_Cons)
  have r: "ravel ds is < prod_list ds" using ravel_less [OF v] .
  show ?case using r Cons.IH [OF v] by (simp add: idx)
qed

lemma valid_unravel: "f < prod_list s \<Longrightarrow> valid_index s (unravel s f)"
proof (induction s arbitrary: f)
  case Nil
  then show ?case by simp
next
  case (Cons d ds)
  from Cons.prems have pos: "0 < prod_list ds" by (cases "prod_list ds = 0") auto
  have "f div prod_list ds < d"
    using Cons.prems pos by (simp add: less_mult_imp_div_less mult.commute)
  moreover have "valid_index ds (unravel ds (f mod prod_list ds))"
    using pos by (intro Cons.IH) simp
  ultimately show ?case by simp
qed

lemma ravel_unravel: "f < prod_list s \<Longrightarrow> ravel s (unravel s f) = f"
proof (induction s arbitrary: f)
  case Nil
  then show ?case by simp
next
  case (Cons d ds)
  from Cons.prems have pos: "0 < prod_list ds" by (cases "prod_list ds = 0") auto
  have "ravel ds (unravel ds (f mod prod_list ds)) = f mod prod_list ds"
    using pos by (intro Cons.IH) simp
  then show ?case by simp
qed

lemma shape_tabulate [simp]: "shape (tabulate s F) = s"
  by (simp add: tabulate_def)

lemma wf_tabulate [simp]: "wf_tensor (tabulate s F)"
  by (simp add: tabulate_def wf_tensor_def)

lemma length_data_tabulate [simp]: "length (data (tabulate s F)) = prod_list s"
  by (simp add: tabulate_def)

lemma at_tabulate: "valid_index s idx \<Longrightarrow> at (tabulate s F) idx = F idx"
  using ravel_less [of s idx] by (simp add: at_def tabulate_def unravel_ravel)

lemma tabulate_cong:
  assumes "\<And>idx. valid_index s idx \<Longrightarrow> F idx = G idx"
  shows "tabulate s F = tabulate s G"
  using assms by (simp add: tabulate_def valid_unravel)

lemma tabulate_at: "wf_tensor t \<Longrightarrow> tabulate (shape t) (at t) = t"
proof -
  assume wf: "wf_tensor t"
  have "map (\<lambda>f. data t ! ravel (shape t) (unravel (shape t) f)) [0..<prod_list (shape t)]
        = map (\<lambda>f. data t ! f) [0..<prod_list (shape t)]"
    by (rule map_cong) (simp_all add: ravel_unravel)
  also have "\<dots> = data t" using wf map_nth [of "data t"] by (simp add: wf_tensor_def)
  finally show ?thesis by (cases t) (simp add: tabulate_def at_def)
qed

lemma tensor_eqI:
  assumes "wf_tensor t" "wf_tensor u" "shape t = shape u"
    and "\<And>idx. valid_index (shape t) idx \<Longrightarrow> at t idx = at u idx"
  shows "t = u"
proof -
  have "t = tabulate (shape t) (at t)" using assms(1) by (simp add: tabulate_at)
  also have "\<dots> = tabulate (shape t) (at u)" using assms(4) by (rule tabulate_cong)
  also have "\<dots> = u" using assms(2,3) by (simp add: tabulate_at)
  finally show ?thesis .
qed

section \<open>The TensorFlow operations on the shapes of the pipeline\<close>

lemma reshape3:
  "length (data t) = h * w * 3 \<Longrightarrow> tf_reshape t [int h, int w, 3] = Inr (Tensor [h, w, 3] (data t))"
  by (simp add: tf_reshape_def)

lemma convert_single:
  assumes "wf_tensor t"
  shows "convert_to_tensor [t] = Inr (Tensor (1 # shape t) (data t))"
proof -
  let ?T = "tabulate (1 # shape t) (\<lambda>idx. at ([t] ! (idx ! 0)) (drop (Suc 0) idx))"
  have "?T = Tensor (1 # shape t) (data t)"
  proof (rule tensor_eqI)
    show "wf_tensor ?T" by simp
    show "wf_tensor (Tensor (1 # shape t) (data t))"
      using assms by (simp add: wf_tensor_def)
    show "shape ?T = shape (Tensor (1 # shape t) (data t))" by simp
  next
    fix idx assume "valid_index (shape ?T) idx"
    then obtain "is" where idx: "idx = 0 # is" and v: "valid_index (shape t) is"
      by (auto simp: valid_index_Cons)
    show "at ?T idx = at (Tensor (1 # shape t) (data t)) idx"
      using v by (simp add: idx at_tabulate) (simp add: at_def)
  qed
  then show ?thesis by (simp add: convert_to_tensor_def tf_stack_def)
qed

lemma block_bound:
  fixes i p g a :: nat
  assumes "i < g" "a < p"
  shows "i * p + a < g * p"
proof -
  have "i * p + a < Suc i * p" using assms(2) by simp
  also have "\<dots> \<le> g * p" using assms(1) by (intro mult_le_mono1) simp
  finally show ?thesis .
qed

lemma s2b_blocks:
  assumes "shape X = [1, h, h, ch]" "0 < p" "p dvd h"
  shows "space_to_batch_nd X [int p, int p] [[0, 0], [0, 0]]
         = Inr (tabulate [p * p, h div p, h div p, ch]
                 (\<lambda>idx. at X [0, (idx ! 1) * p + (idx ! 0) div p,
                                (idx ! 2) * p + (idx ! 0) mod p, idx ! 3]))"
proof -
  have h: "h div p * p = h" using assms(3) by simp
  have "tabulate [p * p, h div p, h div p, ch]
          (\<lambda>idx. if idx ! 1 * p + idx ! 0 div p < h \<and> idx ! 2 * p + idx ! 0 mod p < h
                  then at X [0, idx ! 1 * p + idx ! 0 div p, idx ! 2 * p + idx ! 0 mod p, idx ! 3]
                  else 0)
        = tabulate [p * p, h div p, h div p, ch]
            (\<lambda>idx. at X [0, (idx ! 1) * p + (idx ! 0) div p,
                           (idx ! 2) * p + (idx ! 0) mod p, idx ! 3])"
  proof (rule tabulate_cong)
    fix idx assume "valid_index [p * p, h div p, h div p, ch] idx"
    then obtain n i j c where idx: "idx = [n, i, j, c]"
      and b: "n < p * p" "i < h div p" "j < h div p" "c < ch"
      by (auto simp: valid_index_Cons)
    have "n div p < p" using b(1) assms(2) by (simp add: less_mult_imp_div_less)
    then have 1: "i * p + n div p < h" using block_bound [OF b(2), of "n div p" p] h by simp
    have "n mod p < p" using assms(2) by simp
    then have 2: "j * p + n mod p < h" using block_bound [OF b(3), of "n mod p" p] h by simp
    show "(if idx ! 1 * p + idx ! 0 div p < h \<and> idx ! 2 * p + idx ! 0 mod p < h
           then at X [0, idx ! 1 * p + idx ! 0 div p, idx ! 2 * p + idx ! 0 mod p, idx ! 3]
           else 0)
          = at X [0, (idx ! 1) * p + (idx ! 0) div p, (idx ! 2) * p + (idx ! 0) mod p, idx ! 3]"
      using 1 2 by (simp add: idx)
  qed
  then show ?thesis
    using assms by (simp add: space_to_batch_nd_def Let_def cong: if_cong)
qed

lemma valid_index_nth:
  "valid_index s idx \<Longrightarrow> k < length s \<Longrightarrow> idx ! k < s ! k"
  by (simp add: valid_index_def list_all2_conv_all_nth)

lemma split_unit:
  assumes "0 < n"
  shows "tf_split (tabulate (n # ds) F) (int n)
         = Inr (map (\<lambda>k. tabulate (1 # ds) (\<lambda>idx. F (k # tl idx))) [0..<n])"
proof -
  have "map (\<lambda>k. tabulate (1 # ds) (\<lambda>idx. at (tabulate (n # ds) F) (idx[0 := k + idx ! 0])))
          [0..<n]
        = map (\<lambda>k. tabulate (1 # ds) (\<lambda>idx. F (k # tl idx))) [0..<n]"
  proof (rule map_cong [OF refl], rule tabulate_cong)
    fix k idx assume k: "k \<in> set [0..<n]" and "valid_index (1 # ds) idx"
    then obtain "is" where idx: "idx = 0 # is" and v: "valid_index ds is"
      by (auto simp: valid_index_Cons)
    show "at (tabulate (n # ds) F) (idx[0 := k + idx ! 0]) = F (k # tl idx)"
      using k v by (simp add: idx at_tabulate)
  qed
  then show ?thesis using assms by (simp add: tf_split_def)
qed

lemma stack_map:
  assumes "0 < n" "\<And>k. k < n \<Longrightarrow> shape (G k) = s" "axis \<le> length s"
  shows "tf_stack (map G [0..<n]) axis
         = Inr (tabulate (take axis s @ [n] @ drop axis s)
                 (\<lambda>idx. at (G (idx ! axis)) (take axis idx @ drop (Suc axis) idx)))"
proof -
  have hd: "hd (map G [0..<n]) = G 0" using assms(1) by (simp add: hd_map upt_conv_Cons)
  have s0: "shape (G 0) = s" using assms(1,2) by simp
  have ex: "\<not> list_ex (\<lambda>u. shape u \<noteq> s) (map G [0..<n])"
    using assms(2) by (simp add: list_ex_iff)
  have "tabulate (take axis s @ [n] @ drop axis s)
          (\<lambda>idx. at (map G [0..<n] ! (idx ! axis)) (take axis idx @ drop (Suc axis) idx))
        = tabulate (take axis s @ [n] @ drop axis s)
            (\<lambda>idx. at (G (idx ! axis)) (take axis idx @ drop (Suc axis) idx))"
  proof (rule tabulate_cong)
    fix idx assume v: "valid_index (take axis s @ [n] @ drop axis s) idx"
    have "idx ! axis < (take axis s @ [n] @ drop axis s) ! axis"
      using assms(3) by (intro valid_index_nth [OF v]) simp
    then have "idx ! axis < n" using assms(3) by (simp add: nth_append)
    then show "at (map G [0..<n] ! (idx ! axis)) (take axis idx @ drop (Suc axis) idx)
               = at (G (idx ! axis)) (take axis idx @ drop (Suc axis) idx)"
      by simp
  qed
  then show ?thesis
    using assms(1,3) ex by (simp add: tf_stack_def hd s0 Let_def)
qed

lemma reshape_patches:
  assumes "length (data R) = g * g * (p * p) * 3" "0 < p"
  shows "tf_reshape R [- 1, int p, int p, 3] = Inr (Tensor [g * g, p, p, 3] (data R))"
proof -
  have "g * g * (p * p) * 3 = (g * g) * (p * p * 3)" by simp
  then have "(g * g * (p * p) * 3) div (p * p * 3) = g * g" "(g * g * (p * p) * 3) mod (p * p * 3) = 0"
    using assms(2) by simp_all
  then show ?thesis using assms by (simp add: tf_reshape_def)
qed

section \<open>The patches of a valid split\<close>

lemma generate_patches_v2_valid:
  fixes img :: "'a::zero tensor"
  assumes len: "length (data img) = h * h * 3" and p: "0 < p" and dvd: "p dvd h"
  shows "\<exists>T. generate_patches_v2 img (int h) (int h) (int p) (int p) pad = Inr T
             \<and> shape T = [(h div p) * (h div p), p, p, 3] \<and> wf_tensor T
             \<and> (\<forall>i j r c ch. i < h div p \<and> j < h div p \<and> r < p \<and> c < p \<and> ch < 3 \<longrightarrow>
                   at T [i * (h div p) + j, r, c, ch]
                   = data img ! ravel [h, h, 3] [i * p + r, j * p + c, ch])"
proof -
  define g where "g = h div p"
  define D where "D = data img"
  define X where "X = Tensor [1, h, h, 3] D"
  define FS where "FS = (\<lambda>idx. at X [0, (idx ! 1) * p + (idx ! 0) div p,
                                       (idx ! 2) * p + (idx ! 0) mod p, idx ! 3])"
  define G where "G = (\<lambda>k. tabulate [1, g, g, 3] (\<lambda>idx. FS (k # tl idx)))"
  define R where "R = tabulate [1, g, g, p * p, 3]
                        (\<lambda>idx. at (G (idx ! 3)) (take 3 idx @ drop (Suc 3) idx))"
  define T where "T = Tensor [g * g, p, p, 3] (data R)"
  have pp: "0 < p * p" using p by simp
  have 1: "tf_reshape img [int h, int h, 3] = Inr (Tensor [h, h, 3] D)"
    using len by (simp add: reshape3 D_def)
  have 2: "convert_to_tensor [Tensor [h, h, 3] D] = Inr X"
    using len convert_single [of "Tensor [h, h, 3] D"] by (simp add: wf_tensor_def D_def X_def)
  have 3: "space_to_batch_nd X [int p, int p] [[0, 0], [0, 0]] = Inr (tabulate [p * p, g, g, 3] FS)"
    using s2b_blocks [of X h 3 p] p dvd by (simp add: X_def FS_def g_def)
  have 4: "tf_split (tabulate [p * p, g, g, 3] FS) (int p * int p) = Inr (map G [0..<p * p])"
    using split_unit [OF pp, of "[g, g, 3]" FS] by (simp add: G_def)
  have 5: "tf_stack (map G [0..<p * p]) 3 = Inr R"
    using stack_map [OF pp, of G "[1, g, g, 3]" 3] by (simp add: G_def R_def)
  have lenR: "length (data R) = g * g * (p * p) * 3" by (simp add: R_def)
  have 6: "tf_reshape R [- 1, int p, int p, 3] = Inr T"
    using reshape_patches [OF lenR p] by (simp add: T_def)
  have gen: "generate_patches_v2 img (int h) (int h) (int p) (int p) pad = Inr T"
    by (simp add: generate_patches_v2_def 1 2 3 4 5 6)
  have wf: "wf_tensor T" using lenR by (simp add: T_def wf_tensor_def)
  have at: "at T [i * g + j, r, c, ch] = D ! ravel [h, h, 3] [i * p + r, j * p + c, ch]"
    if b: "i < g" "j < g" "r < p" "c < p" "ch < 3" for i j r c ch
  proof -
    have k: "r * p + c < p * p" using block_bound [OF b(3,4)] .
    have e: "ravel [g * g, p, p, 3] [i * g + j, r, c, ch]
             = ravel [1, g, g, p * p, 3] [0, i, j, r * p + c, ch]"
      by (simp add: algebra_simps)
    have sR: "shape R = [1, g, g, p * p, 3]" by (simp add: R_def)
    have "at T [i * g + j, r, c, ch] = data R ! ravel [g * g, p, p, 3] [i * g + j, r, c, ch]"
      by (simp only: at_def T_def tensor.sel)
    also have "\<dots> = at R [0, i, j, r * p + c, ch]"
      by (simp only: e at_def sR)
    also have "\<dots> = at (G (r * p + c)) [0, i, j, ch]"
      using b k by (simp add: R_def at_tabulate)
    also have "\<dots> = FS [r * p + c, i, j, ch]"
      using b by (simp add: G_def at_tabulate)
    also have "\<dots> = at X [0, i * p + r, j * p + c, ch]"
      using b by (simp add: FS_def)
    also have "\<dots> = D ! ravel [h, h, 3] [i * p + r, j * p + c, ch]"
      by (simp add: X_def at_def)
    finally show ?thesis .
  qed
  show ?thesis
    using gen wf at by (auto simp: T_def g_def D_def)
qed

section \<open>Placement of patches\<close>

lemma length_unstack [simp]: "length (unstack t) = hd (shape t)"
  by (simp add: unstack_def)

lemma nth_unstack:
  "k < hd (shape t) \<Longrightarrow> unstack t ! k = tabulate (tl (shape t)) (\<lambda>idx. at t (k # idx))"
  by (simp add: unstack_def)

lemma shape_unstack: "u \<in> set (unstack t) \<Longrightarrow> shape u = tl (shape t) \<and> wf_tensor u"
  by (auto simp: unstack_def)

lemma div_less_grid:
  fixes y p g :: nat
  assumes "y < g * p"
  shows "y div p < g"
  using assms by (simp add: less_mult_imp_div_less)

lemma shape_place [simp]: "shape (place seq H W ph pw c) = [H, W, c]"
  by (simp add: place_def)

lemma wf_place [simp]: "wf_tensor (place seq H W ph pw c)"
  by (simp add: place_def)

lemma at_place:
  "y < H \<Longrightarrow> x < W \<Longrightarrow> ch < c \<Longrightarrow>
   at (place seq H W ph pw c) [y, x, ch]
   = at (seq ! ((y div ph) * (W div pw) + x div pw)) [y mod ph, x mod pw, ch]"
  by (simp add: place_def at_tabulate)

lemma nth_grid_blocks:
  "k < (shape img ! 0 div ph) * (shape img ! 1 div pw) \<Longrightarrow>
   grid_blocks img ph pw ! k
   = tabulate [ph, pw, shape img ! 2]
       (\<lambda>idx. at img [(k div (shape img ! 1 div pw)) * ph + idx ! 0,
                       (k mod (shape img ! 1 div pw)) * pw + idx ! 1, idx ! 2])"
  by (simp add: grid_blocks_def Let_def)

lemma place_unstack:
  fixes T :: "'a tensor"
  assumes sT: "shape T = [(h div p) * (h div p), p, p, 3]"
    and p: "0 < p" and dvd: "p dvd h"
    and wf: "wf_tensor img" and si: "shape img = [h, h, 3]"
    and atT: "\<And>i j r c ch. i < h div p \<Longrightarrow> j < h div p \<Longrightarrow> r < p \<Longrightarrow> c < p \<Longrightarrow> ch < 3 \<Longrightarrow>
                at T [i * (h div p) + j, r, c, ch] = at img [i * p + r, j * p + c, ch]"
  shows "place (unstack T) h h p p 3 = img"
proof (rule tensor_eqI)
  show "wf_tensor (place (unstack T) h h p p 3)" by simp
  show "wf_tensor img" by (rule wf)
  show "shape (place (unstack T) h h p p 3) = shape img" by (simp add: si)
next
  fix idx assume "valid_index (shape (place (unstack T) h h p p 3)) idx"
  then obtain y x c where idx: "idx = [y, x, c]" and b: "y < h" "x < h" "c < 3"
    by (auto simp: valid_index_Cons)
  define g where "g = h div p"
  have h: "g * p = h" using dvd by (simp add: g_def)
  have yg: "y div p < g" using b(1) h by (intro div_less_grid) simp
  have xg: "x div p < g" using b(2) h by (intro div_less_grid) simp
  have k: "(y div p) * g + x div p < g * g" using block_bound [OF yg xg] .
  have m: "y mod p < p" "x mod p < p" using p by simp_all
  have "at (place (unstack T) h h p p 3) idx
        = at (unstack T ! ((y div p) * g + x div p)) [y mod p, x mod p, c]"
    using b by (simp add: idx at_place g_def)
  also have "\<dots> = at T [(y div p) * g + x div p, y mod p, x mod p, c]"
    using k m b(3) by (simp add: nth_unstack sT g_def at_tabulate)
  also have "\<dots> = at img [(y div p) * p + y mod p, (x div p) * p + x mod p, c]"
    using atT [OF yg [unfolded g_def] xg [unfolded g_def] m b(3)] by (simp add: g_def)
  also have "\<dots> = at img idx" by (simp add: idx)
  finally show "at (place (unstack T) h h p p 3) idx = at img idx" .
qed

lemma length_grid_blocks:
  "length (grid_blocks img ph pw) = (shape img ! 0 div ph) * (shape img ! 1 div pw)"
  by (simp add: grid_blocks_def Let_def)

lemma blocks_place:
  fixes seq :: "'a tensor list"
  assumes len: "length seq = (H div ph) * (W div pw)"
    and el: "\<And>t. t \<in> set seq \<Longrightarrow> wf_tensor t \<and> shape t = [ph, pw, c]"
    and pos: "0 < ph" "0 < pw" and dvd: "ph dvd H" "pw dvd W"
  shows "grid_blocks (place seq H W ph pw c) ph pw = seq"
proof (rule nth_equalityI)
  show "length (grid_blocks (place seq H W ph pw c) ph pw) = length seq"
    by (simp add: length_grid_blocks len)
next
  fix k assume "k < length (grid_blocks (place seq H W ph pw c) ph pw)"
  then have k: "k < (H div ph) * (W div pw)" by (simp add: length_grid_blocks)
  define gh where "gh = H div ph"
  define gw where "gw = W div pw"
  have H: "gh * ph = H" and W: "gw * pw = W" using dvd by (simp_all add: gh_def gw_def)
  have kk: "k < gh * gw" using k by (simp add: gh_def gw_def)
  then have gwpos: "0 < gw" by (cases "gw = 0") auto
  have kd: "k div gw < gh" using kk by (intro div_less_grid) simp
  have km: "k mod gw < gw" using gwpos by simp
  have mem: "seq ! k \<in> set seq" using k len by simp
  let ?B = "tabulate [ph, pw, c]
              (\<lambda>idx. at (place seq H W ph pw c)
                        [(k div gw) * ph + idx ! 0, (k mod gw) * pw + idx ! 1, idx ! 2])"
  have "?B = seq ! k"
  proof (rule tensor_eqI)
    show "wf_tensor ?B" by simp
    show "wf_tensor (seq ! k)" using el [OF mem] by simp
    show "shape ?B = shape (seq ! k)" using el [OF mem] by simp
  next
    fix idx assume "valid_index (shape ?B) idx"
    then obtain r cc ch where idx: "idx = [r, cc, ch]" and b: "r < ph" "cc < pw" "ch < c"
      by (auto simp: valid_index_Cons)
    have y: "(k div gw) * ph + r < H" using block_bound [OF kd b(1)] H by simp
    have x: "(k mod gw) * pw + cc < W" using block_bound [OF km b(2)] W by simp
    have "at ?B idx = at (place seq H W ph pw c) [(k div gw) * ph + r, (k mod gw) * pw + cc, ch]"
      using b by (simp add: idx at_tabulate)
    also have "\<dots> = at (seq ! ((k div gw) * gw + k mod gw)) [r, cc, ch]"
      using y x b by (simp add: at_place gw_def)
    also have "\<dots> = at (seq ! k) idx" by (simp add: idx)
    finally show "at ?B idx = at (seq ! k) idx" .
  qed
  then show "grid_blocks (place seq H W ph pw c) ph pw ! k = seq ! k"
    using k by (simp add: nth_grid_blocks gw_def)
qed

lemma unstack_grid_blocks:
  fixes T :: "'a tensor"
  assumes sT: "shape T = [(h div p) * (h div p), p, p, 3]" and si: "shape img = [h, h, 3]"
    and atT: "\<And>i j r c ch. i < h div p \<Longrightarrow> j < h div p \<Longrightarrow> r < p \<Longrightarrow> c < p \<Longrightarrow> ch < 3 \<Longrightarrow>
                at T [i * (h div p) + j, r, c, ch] = at img [i * p + r, j * p + c, ch]"
  shows "unstack T = grid_blocks img p p"
proof (rule nth_equalityI)
  show "length (unstack T) = length (grid_blocks img p p)"
    by (simp add: sT si length_grid_blocks)
next
  fix k assume "k < length (unstack T)"
  then have k: "k < (h div p) * (h div p)" by (simp add: sT)
  define g where "g = h div p"
  have gpos: "0 < g" using k by (cases "g = 0") (auto simp: g_def)
  have kd: "k div g < g" using k by (intro div_less_grid) (simp add: g_def)
  have km: "k mod g < g" using gpos by simp
  have "tabulate [p, p, 3] (\<lambda>idx. at T (k # idx))
        = tabulate [p, p, 3]
            (\<lambda>idx. at img [(k div g) * p + idx ! 0, (k mod g) * p + idx ! 1, idx ! 2])"
  proof (rule tabulate_cong)
    fix idx assume "valid_index [p, p, 3] idx"
    then obtain r c ch where idx: "idx = [r, c, ch]" and b: "r < p" "c < p" "ch < 3"
      by (auto simp: valid_index_Cons)
    have "at T [(k div g) * g + k mod g, r, c, ch]
          = at img [(k div g) * p + r, (k mod g) * p + c, ch]"
      using atT [OF kd [unfolded g_def] km [unfolded g_def] b] by (simp add: g_def)
    then show "at T (k # idx)
               = at img [(k div g) * p + idx ! 0, (k mod g) * p + idx ! 1, idx ! 2]"
      by (simp add: idx)
  qed
  then show "unstack T ! k = grid_blocks img p p ! k"
    using k by (simp add: nth_unstack nth_grid_blocks sT si g_def)
qed

section \<open>Properties of the split\<close>

text \<open>
  C2. For a square image of shape (h, h, 3) and a square patch size p dividing h,
  generate_patches_v2 returns the block decomposition in row-major grid order: patch
  number i*(h/p)+j holds at (r, c, ch) the pixel image[i*p + r, j*p + c, ch], so the
  patch sequence is the sequence of the non-overlapping grid blocks of the image.
\<close>

theorem generate_patches_v2_row_major_blocks:
  fixes img :: "'a::zero tensor"
  assumes "wf_tensor img" "shape img = [h, h, 3]" "0 < p" "p dvd h"
  shows "\<exists>T. generate_patches_v2 img (int h) (int h) (int p) (int p) pad = Inr T
             \<and> (\<forall>i j r c ch. i < h div p \<and> j < h div p \<and> r < p \<and> c < p \<and> ch < 3 \<longrightarrow>
                   at T [i * (h div p) + j, r, c, ch] = at img [i * p + r, j * p + c, ch])
             \<and> unstack T = grid_blocks img p p"
proof -
  have len: "length (data img) = h * h * 3" using assms(1,2) by (simp add: wf_tensor_def)
  from generate_patches_v2_valid [OF len assms(3,4), of pad]
  obtain T where gen: "generate_patches_v2 img (int h) (int h) (int p) (int p) pad = Inr T"
    and sT: "shape T = [(h div p) * (h div p), p, p, 3]"
    and atT: "\<And>i j r c ch. i < h div p \<Longrightarrow> j < h div p \<Longrightarrow> r < p \<Longrightarrow> c < p \<Longrightarrow> ch < 3 \<Longrightarrow>
                at T [i * (h div p) + j, r, c, ch]
                = data img ! ravel [h, h, 3] [i * p + r, j * p + c, ch]"
    by blast
  have atT': "at T [i * (h div p) + j, r, c, ch] = at img [i * p + r, j * p + c, ch]"
    if "i < h div p" "j < h div p" "r < p" "c < p" "ch < 3" for i j r c ch
    using atT [OF that] by (simp add: at_def assms(2))
  have "unstack T = grid_blocks img p p"
    using sT assms(2) atT' by (rule unstack_grid_blocks)
  then show ?thesis using gen atT' by blast
qed

theorem generate_patches_v2_row_major_blocks_witness:
  "\<exists>T. generate_patches_v2 (Tensor [2, 2, 3] [0, 1, 2, 3, 4, 5, 6, 7, 8, 9, 10, 11 :: int])
          2 2 1 1 False = Inr T
       \<and> at T [0, 0, 0, 0] = 0 \<and> at T [1, 0, 0, 2] = 5 \<and> at T [2, 0, 0, 0] = 6
       \<and> at T [3, 0, 0, 1] = 10"
proof -
  let ?img = "Tensor [2, 2, 3] [0, 1, 2, 3, 4, 5, 6, 7, 8, 9, 10, 11 :: int]"
  have wf: "wf_tensor ?img" by (simp add: wf_tensor_def)
  from generate_patches_v2_row_major_blocks [OF wf, of 2 1 False]
  obtain T where T: "generate_patches_v2 ?img 2 2 1 1 False = Inr T"
    and a: "\<And>i j r c ch. i < 2 \<and> j < 2 \<and> r < 1 \<and> c < 1 \<and> ch < 3 \<Longrightarrow>
              at T [i * 2 + j, r, c, ch] = at ?img [i * 1 + r, j * 1 + c, ch]"
    by auto
  have "at T [0, 0, 0, 0] = 0" using a [of 0 0 0 0 0] by (simp add: at_def)
  moreover have "at T [1, 0, 0, 2] = 5" using a [of 0 1 0 0 2] by (simp add: at_def)
  moreover have "at T [2, 0, 0, 0] = 6" using a [of 1 0 0 0 0] by (simp add: at_def)
  moreover have "at T [3, 0, 0, 1] = 10" using a [of 1 1 0 0 1] by (simp add: at_def)
  ultimately show ?thesis using T by blast
qed

text \<open>
  C3. For a square image and a square patch size dividing its side, generate_patches_v2
  returns exactly (h/p)*(h/p) patches, each of shape (p, p, 3).
\<close>

theorem generate_patches_v2_count_and_shape:
  fixes img :: "'a::zero tensor"
  assumes "wf_tensor img" "shape img = [h, h, 3]" "0 < p" "p dvd h"
  shows "\<exists>T. generate_patches_v2 img (int h) (int h) (int p) (int p) pad = Inr T
             \<and> shape T = [(h div p) * (h div p), p, p, 3] \<and> wf_tensor T
             \<and> length (unstack T) = (h div p) * (h div p)
             \<and> (\<forall>u \<in> set (unstack T). shape u = [p, p, 3])"
proof -
  have len: "length (data img) = h * h * 3" using assms(1,2) by (simp add: wf_tensor_def)
  from generate_patches_v2_valid [OF len assms(3,4), of pad]
  obtain T where T: "generate_patches_v2 img (int h) (int h) (int p) (int p) pad = Inr T"
    "shape T = [(h div p) * (h div p), p, p, 3]" "wf_tensor T" by blast
  have "\<forall>u \<in> set (unstack T). shape u = [p, p, 3]" using T(2) by (auto dest: shape_unstack)
  then show ?thesis using T by auto
qed

theorem generate_patches_v2_count_and_shape_witness:
  "\<exists>T. generate_patches_v2 (Tensor [224, 224, 3] (replicate (224 * 224 * 3) (0 :: int)))
          224 224 56 56 False = Inr T
       \<and> shape T = [16, 56, 56, 3] \<and> length (unstack T) = 16
       \<and> list_all (\<lambda>u. shape u = [56, 56, 3]) (unstack T)"
proof -
  let ?img = "Tensor [224, 224, 3] (replicate (224 * 224 * 3) (0 :: int))"
  have wf: "wf_tensor ?img" by (simp add: wf_tensor_def)
  have d: "(224 :: nat) div 56 = 4" by simp
  from generate_patches_v2_count_and_shape [OF wf, of 224 56 False]
  show ?thesis by (auto simp: d list_all_iff)
qed

text \<open>
  C4. When the image is not square or the patch is not square the split fails with a
  ShapeError: the failed assertion of line 81 when the image has height*width*3
  elements, the failed reshape of line 73 otherwise.
\<close>

theorem generate_patches_v2_not_square:
  fixes img :: "'a::zero tensor"
  assumes "h \<noteq> w \<or> patch_h \<noteq> patch_w"
  shows "generate_patches_v2 img (int h) (int w) patch_h patch_w pad
         = Inl (ShapeError (if length (data img) = h * w * 3 then NotSquare else BadReshape))"
proof (cases "length (data img) = h * w * 3")
  case True
  then show ?thesis using assms by (auto simp: generate_patches_v2_def reshape3)
next
  case False
  then have "tf_reshape img [int h, int w, 3] = Inl (ShapeError BadReshape)"
    by (simp add: tf_reshape_def)
  then show ?thesis using False by (simp add: generate_patches_v2_def)
qed

theorem generate_patches_v2_not_square_witness:
  "generate_patches_v2 (Tensor [224, 225, 3] (replicate (224 * 225 * 3) (0 :: int)))
     224 225 56 56 False = Inl (ShapeError NotSquare)"
  using generate_patches_v2_not_square
    [of 224 225 56 56 "Tensor [224, 225, 3] (replicate (224 * 225 * 3) (0 :: int))" False]
  by simp

text \<open>
  C6. generate_patches_v2 with pad=True returns what it returns with pad=False: both
  branches of lines 86-91 make the same call.
\<close>

theorem generate_patches_v2_pad_no_effect:
  "generate_patches_v2 img input_h input_w patch_h patch_w True
   = generate_patches_v2 img input_h input_w patch_h patch_w False"
  by (simp add: generate_patches_v2_def Let_def split: sum.split)

theorem generate_patches_v2_pad_no_effect_witness:
  "generate_patches_v2 (Tensor [2, 2, 3] [0, 1, 2, 3, 4, 5, 6, 7, 8, 9, 10, 11 :: int]) 2 2 1 1 True
   = generate_patches_v2 (Tensor [2, 2, 3] [0, 1, 2, 3, 4, 5, 6, 7, 8, 9, 10, 11 :: int]) 2 2 1 1 False"
  by (rule generate_patches_v2_pad_no_effect)

section \<open>Properties of the data conservation checks\<close>

lemma map_tensor_ident [simp]: "map_tensor (\<lambda>v. v) t = t"
  by (cases t) (simp add: map_tensor_def)

lemma broadcast_rev_same: "broadcast_rev s s = Some s"
  by (induction s) simp_all

lemma broadcast_shapes_same: "broadcast_shapes s s = Some s"
  by (simp add: broadcast_shapes_def broadcast_rev_same)

lemma map2_valid_index:
  "valid_index s idx \<Longrightarrow> map2 (\<lambda>d i. if d = 1 then 0 else i) s idx = idx"
proof (induction s arbitrary: idx)
  case Nil
  then show ?case by simp
next
  case (Cons d ds)
  then obtain i "is" where "idx = i # is" "i < d" "valid_index ds is"
    by (auto simp: valid_index_Cons)
  then show ?case using Cons.IH by auto
qed

lemma broadcast_at_same:
  "valid_index (shape t) idx \<Longrightarrow> broadcast_at t idx = at t idx"
  using map2_valid_index [of "shape t" idx] by (simp add: broadcast_at_def valid_index_length)

lemma list_all_tabulate:
  "list_all (\<lambda>x. x) (data (tabulate s F)) = (\<forall>idx. valid_index s idx \<longrightarrow> F idx)"
proof
  assume a: "list_all (\<lambda>x. x) (data (tabulate s F))"
  show "\<forall>idx. valid_index s idx \<longrightarrow> F idx"
  proof (intro allI impI)
    fix idx assume v: "valid_index s idx"
    have "ravel s idx < prod_list s" using v by (rule ravel_less)
    then have "F (unravel s (ravel s idx))"
      using a by (simp add: tabulate_def list_all_iff)
    then show "F idx" using v by (simp add: unravel_ravel)
  qed
next
  assume "\<forall>idx. valid_index s idx \<longrightarrow> F idx"
  then show "list_all (\<lambda>x. x) (data (tabulate s F))"
    by (simp add: tabulate_def list_all_iff valid_unravel)
qed

lemma fold_conj: "fold (\<lambda>x acc. acc \<and> x) xs b = (b \<and> list_all (\<lambda>x. x) xs)"
  by (induction xs arbitrary: b) auto

lemma tf_reduce_all_np_all: "tf_reduce_all t = np_all t"
  by (simp add: tf_reduce_all_def np_all_def fold_conj)

lemma nth_concat_replicate:
  "y < h \<Longrightarrow> k < length row \<Longrightarrow> concat (replicate h row) ! (y * length row + k) = row ! k"
proof (induction h arbitrary: y)
  case 0
  then show ?case by simp
next
  case (Suc h)
  show ?case
  proof (cases y)
    case 0
    then show ?thesis using Suc.prems by (simp add: nth_append)
  next
    case (Suc y')
    then show ?thesis using Suc.prems Suc.IH [of y'] by (simp add: nth_append)
  qed
qed

lemma equal_shape_checks:
  assumes "wf_tensor a" "wf_tensor b" "shape a = shape b"
  shows "reconstruction_conserves_data a b
           = Inr (\<forall>idx. valid_index (shape a) idx \<longrightarrow> at a idx = at b idx)"
    and "image_data_conserved a b
           = Inr (\<forall>idx. valid_index (shape a) idx \<longrightarrow> at a idx = at b idx)"
    and "(\<forall>idx. valid_index (shape a) idx \<longrightarrow> at a idx = at b idx) = (a = b)"
proof -
  let ?E = "\<forall>idx. valid_index (shape a) idx \<longrightarrow> at a idx = at b idx"
  have eq: "broadcast_equal a b
            = Inr (tabulate (shape a) (\<lambda>idx. at a idx = at b idx))"
  proof -
    have "tabulate (shape a) (\<lambda>idx. broadcast_at a idx = broadcast_at b idx)
          = tabulate (shape a) (\<lambda>idx. at a idx = at b idx)"
      by (rule tabulate_cong) (simp add: broadcast_at_same assms(3))
    then show ?thesis
      by (simp add: broadcast_equal_def assms(3) [symmetric] broadcast_shapes_same)
  qed
  have all: "np_all (tabulate (shape a) (\<lambda>idx. at a idx = at b idx)) = ?E"
    by (simp add: np_all_def list_all_tabulate)
  show "reconstruction_conserves_data a b = Inr ?E"
    by (simp add: reconstruction_conserves_data_def np_equal_def eq all)
  show "image_data_conserved a b = Inr ?E"
    by (simp add: image_data_conserved_def tf_math_equal_def eq tf_reduce_all_np_all all)
  show "?E = (a = b)"
    using tensor_eqI [OF assms] by auto
qed




lemma astype_in_range: "in_range d v \<Longrightarrow> astype d v = v"
  by (cases d) simp_all

lemma map_tensor_astype:
  "valid_ndarray x \<Longrightarrow> map_tensor (astype (dtype_of x)) (values_of x) = values_of x"
proof -
  assume "valid_ndarray x"
  then have "map (astype (dtype_of x)) (data (values_of x)) = data (values_of x)"
    by (simp add: valid_ndarray_def list_all_iff astype_in_range map_idI)
  then show ?thesis by (cases "values_of x") (simp add: map_tensor_def)
qed

lemma result_type_same [simp]: "result_type d d = d"
  by (cases d) simp_all

text \<open>
  C9 (amended). On every pair of arrays of one dtype the tensor-based check
  image_data_conserved and the numpy-based check reconstruction_conserves_data return
  the same result: on two arrays of one element type, and on two numpy arrays of the
  same integer dtype whose values lie in it.
\<close>

theorem conservation_checks_agree_on_one_dtype:
  "image_data_conserved a b = reconstruction_conserves_data a b
   \<and> (dtype_of x = dtype_of y \<and> valid_ndarray x \<longrightarrow>
        image_data_conserved_dtypes x y = reconstruction_conserves_data_dtypes x y)"
proof (intro conjI impI)
  show "image_data_conserved a b = reconstruction_conserves_data a b"
    by (simp add: image_data_conserved_def reconstruction_conserves_data_def
        tf_math_equal_def np_equal_def tf_reduce_all_np_all split: sum.split)
next
  assume h: "dtype_of x = dtype_of y \<and> valid_ndarray x"
  then have c: "result_type (dtype_of x) (dtype_of y) = dtype_of x" by simp
  have v: "map_tensor (astype (dtype_of x)) (values_of x) = values_of x"
    using h map_tensor_astype [of x] by blast
  show "image_data_conserved_dtypes x y = reconstruction_conserves_data_dtypes x y"
    by (simp add: image_data_conserved_dtypes_def reconstruction_conserves_data_dtypes_def
        tf_math_equal_def np_equal_def c v tf_reduce_all_np_all split: sum.split)
qed

theorem conservation_checks_agree_on_one_dtype_witness:
  "image_data_conserved (Tensor [2, 2] [1, 2, 3, 4 :: int]) (Tensor [2] [1, 2])
   = reconstruction_conserves_data (Tensor [2, 2] [1, 2, 3, 4 :: int]) (Tensor [2] [1, 2])
   \<and> image_data_conserved_dtypes (NDArray UInt8 (Tensor [2] [0, 255])) (NDArray UInt8 (Tensor [2] [0, 255]))
     = reconstruction_conserves_data_dtypes
         (NDArray UInt8 (Tensor [2] [0, 255])) (NDArray UInt8 (Tensor [2] [0, 255]))"
proof -
  have v: "valid_ndarray (NDArray UInt8 (Tensor [2] [0, 255]))"
    by (simp add: valid_ndarray_def)
  show ?thesis
    using conservation_checks_agree_on_one_dtype
      [of "Tensor [2, 2] [1, 2, 3, 4 :: int]" "Tensor [2] [1, 2]"
        "NDArray UInt8 (Tensor [2] [0, 255])" "NDArray UInt8 (Tensor [2] [0, 255])"] v
    by simp
qed

theorem conservation_checks_disagree_counterexample:
  "image_data_conserved_dtypes (NDArray UInt8 (Tensor [1] [0])) (NDArray Int32 (Tensor [1] [256]))
     = Inr True
   \<and> reconstruction_conserves_data_dtypes
       (NDArray UInt8 (Tensor [1] [0])) (NDArray Int32 (Tensor [1] [256])) = Inr False
   \<and> valid_ndarray (NDArray UInt8 (Tensor [1] [0]))
   \<and> valid_ndarray (NDArray Int32 (Tensor [1] [256]))"
  by code_simp

text \<open>
  C10. reconstruction_conserves_data returns true on arrays of different shapes: the
  comparison broadcasts and never compares shapes, so a reconstruction of shape
  (1, w, 3) whose row is every row of the original of shape (h, w, 3) is reported as
  conserving the data.
\<close>

theorem conserves_data_broadcast_row:
  assumes "length row = w * 3" "h \<noteq> 1"
  shows "shape (Tensor [h, w, 3] (concat (replicate h row))) \<noteq> shape (Tensor [1, w, 3] row)
         \<and> wf_tensor (Tensor [h, w, 3] (concat (replicate h row)))
         \<and> wf_tensor (Tensor [1, w, 3] row)
         \<and> reconstruction_conserves_data
             (Tensor [h, w, 3] (concat (replicate h row))) (Tensor [1, w, 3] row) = Inr True"
proof -
  let ?A = "Tensor [h, w, 3] (concat (replicate h row))"
  let ?B = "Tensor [1, w, 3] row"
  have wfA: "wf_tensor ?A"
    using assms(1) by (simp add: wf_tensor_def length_concat sum_list_replicate)
  have wfB: "wf_tensor ?B" using assms(1) by (simp add: wf_tensor_def)
  have bs: "broadcast_shapes [h, w, 3] [1, w, 3] = Some [h, w, 3]"
    by (simp add: broadcast_shapes_def)
  have pt: "broadcast_at ?A idx = broadcast_at ?B idx" if v: "valid_index [h, w, 3] idx" for idx
  proof -
    from v obtain y x c where idx: "idx = [y, x, c]" and b: "y < h" "x < w" "c < 3"
      by (auto simp: valid_index_Cons)
    have k: "x * 3 + c < length row" using block_bound [OF b(2,3)] assms(1) by simp
    have "broadcast_at ?A idx = concat (replicate h row) ! (y * length row + (x * 3 + c))"
      using b by (auto simp: idx broadcast_at_def at_def assms(1))
    also have "\<dots> = row ! (x * 3 + c)" using b(1) k by (rule nth_concat_replicate)
    also have "\<dots> = broadcast_at ?B idx"
      using b by (auto simp: idx broadcast_at_def at_def)
    finally show ?thesis .
  qed
  have "np_all (tabulate [h, w, 3] (\<lambda>idx. broadcast_at ?A idx = broadcast_at ?B idx))"
    using pt by (simp add: np_all_def list_all_tabulate)
  then have "reconstruction_conserves_data ?A ?B = Inr True"
    using bs by (simp add: reconstruction_conserves_data_def np_equal_def broadcast_equal_def)
  then show ?thesis using wfA wfB assms(2) by simp
qed

theorem conserves_data_broadcast_row_witness:
  "shape (Tensor [2, 1, 3] [7, 8, 9, 7, 8, 9 :: int]) \<noteq> shape (Tensor [1, 1, 3] [7, 8, 9 :: int])
   \<and> reconstruction_conserves_data
       (Tensor [2, 1, 3] [7, 8, 9, 7, 8, 9 :: int]) (Tensor [1, 1, 3] [7, 8, 9]) = Inr True"
  using conserves_data_broadcast_row [of "[7, 8, 9 :: int]" 1 2]
  by (simp add: numeral_2_eq_2)

section \<open>Properties of the reconstruction\<close>

lemma reconstruct_valid:
  fixes P :: "'a tensor"
  assumes wf: "wf_tensor P" and sP: "shape P = [n, ph, pw, c]"
    and pos: "0 < ph" "0 < pw" and dvd: "ph dvd H" "pw dvd W"
    and n: "n = (H div ph) * (W div pw)" and m: "measure_of mid = Some m"
  shows "reconstruct_from_patches score P (int H) (int W) mid order_by
         = Inr (place (case order_by of Identity \<Rightarrow> unstack P
                       | ByMeasure \<Rightarrow> sort_key (score m (unstack P)) (unstack P))
                  H W ph pw c)"
proof -
  have len: "length (data P) = n * ph * pw * c"
    using wf sP by (simp add: wf_tensor_def mult.assoc)
  show ?thesis
    using pos dvd n len by (simp add: reconstruct_from_patches_def sP m Let_def)
qed

text \<open>
  C1. For a square image whose side is divisible by a square patch size, splitting with
  generate_patches_v2 and reconstructing under the identity ordering (p_por) returns
  the original image, and the data-conservation check on the two returns true.
\<close>

theorem split_reconstruct_identity_lossless:
  fixes img :: "'a::zero tensor"
  assumes "wf_tensor img" "shape img = [h, h, 3]" "0 < p" "p dvd h" "measure_of mid = Some m"
  shows "\<exists>r. p_por score img (int h) (int h) mid Identity (int p) (int p) = Inr r
             \<and> r = img
             \<and> reconstruction_conserves_data img r = Inr True
             \<and> image_data_conserved img r = Inr True"
proof -
  have len: "length (data img) = h * h * 3" using assms(1,2) by (simp add: wf_tensor_def)
  from generate_patches_v2_valid [OF len assms(3,4), of False]
  obtain T where gen: "generate_patches_v2 img (int h) (int h) (int p) (int p) False = Inr T"
    and sT: "shape T = [(h div p) * (h div p), p, p, 3]" and wfT: "wf_tensor T"
    and atT: "\<And>i j r c ch. i < h div p \<Longrightarrow> j < h div p \<Longrightarrow> r < p \<Longrightarrow> c < p \<Longrightarrow> ch < 3 \<Longrightarrow>
                at T [i * (h div p) + j, r, c, ch]
                = data img ! ravel [h, h, 3] [i * p + r, j * p + c, ch]"
    by blast
  have atT': "at T [i * (h div p) + j, r, c, ch] = at img [i * p + r, j * p + c, ch]"
    if "i < h div p" "j < h div p" "r < p" "c < p" "ch < 3" for i j r c ch
    using atT [OF that] by (simp add: at_def assms(2))
  have rec: "reconstruct_from_patches score T (int h) (int h) mid Identity
             = Inr (place (unstack T) h h p p 3)"
    using reconstruct_valid [OF wfT sT assms(3,3,4,4) refl assms(5), of score Identity] by simp
  have pl: "place (unstack T) h h p p 3 = img"
    using sT assms(3,4,1,2) atT' by (rule place_unstack)
  have por: "p_por score img (int h) (int h) mid Identity (int p) (int p) = Inr img"
    by (simp add: p_por_def gen rec pl)
  have "reconstruction_conserves_data img img = Inr True" "image_data_conserved img img = Inr True"
    using equal_shape_checks(1,2) [OF assms(1) assms(1) refl] by simp_all
  then show ?thesis using por by simp
qed

theorem split_reconstruct_identity_lossless_witness:
  "p_por (\<lambda>m s t. 0 :: nat) (Tensor [2, 2, 3] [0, 1, 2, 3, 4, 5, 6, 7, 8, 9, 10, 11 :: int])
     2 2 ''SSIM'' Identity 1 1
   = Inr (Tensor [2, 2, 3] [0, 1, 2, 3, 4, 5, 6, 7, 8, 9, 10, 11])
   \<and> reconstruction_conserves_data (Tensor [2, 2, 3] [0, 1, 2, 3, 4, 5, 6, 7, 8, 9, 10, 11 :: int])
       (Tensor [2, 2, 3] [0, 1, 2, 3, 4, 5, 6, 7, 8, 9, 10, 11]) = Inr True"
proof -
  let ?img = "Tensor [2, 2, 3] [0, 1, 2, 3, 4, 5, 6, 7, 8, 9, 10, 11 :: int]"
  have wf: "wf_tensor ?img" by (simp add: wf_tensor_def)
  have m: "measure_of ''SSIM'' = Some SSIM" by (simp add: measure_of_def)
  from split_reconstruct_identity_lossless [OF wf _ _ _ m, of 2 1 "\<lambda>m s t. 0 :: nat"]
  show ?thesis by simp
qed

text \<open>
  C5. For every ordering strategy and every supported measure, the image returned by
  reconstruct_from_patches is a permutation of the patches: the multiset of the blocks
  in its grid cells is the multiset of the input patches.
\<close>

theorem reconstruct_from_patches_permutes:
  fixes P :: "'a tensor"
  assumes "wf_tensor P" "shape P = [n, ph, pw, c]" "0 < ph" "0 < pw" "ph dvd H" "pw dvd W"
    "n = (H div ph) * (W div pw)" "measure_of mid = Some m"
  shows "\<exists>out. reconstruct_from_patches score P (int H) (int W) mid order_by = Inr out
               \<and> shape out = [H, W, c] \<and> wf_tensor out
               \<and> mset (grid_blocks out ph pw) = mset (unstack P)"
proof -
  define seq where "seq = (case order_by of Identity \<Rightarrow> unstack P
                           | ByMeasure \<Rightarrow> sort_key (score m (unstack P)) (unstack P))"
  have ms: "mset seq = mset (unstack P)" by (cases order_by) (simp_all add: seq_def)
  have len: "length seq = (H div ph) * (W div pw)"
    using mset_eq_length [OF ms] assms(2,7) by simp
  have el: "wf_tensor t \<and> shape t = [ph, pw, c]" if "t \<in> set seq" for t
  proof -
    have "t \<in> set (unstack P)" using that mset_eq_setD [OF ms] by simp
    then show ?thesis using shape_unstack [of t P] assms(2) by simp
  qed
  have rec: "reconstruct_from_patches score P (int H) (int W) mid order_by
             = Inr (place seq H W ph pw c)"
    using reconstruct_valid [OF assms, of score order_by] by (simp add: seq_def)
  have "grid_blocks (place seq H W ph pw c) ph pw = seq"
    using len el assms(3,4,5,6) by (rule blocks_place)
  then show ?thesis using rec ms by simp
qed

theorem reconstruct_from_patches_permutes_witness:
  "\<exists>out. reconstruct_from_patches (\<lambda>m s t. - sum_list (data t))
            (Tensor [2, 1, 1, 3] [1, 2, 3, 4, 5, 6 :: int]) 1 2 ''ENTROPY'' ByMeasure = Inr out
         \<and> shape out = [1, 2, 3]
         \<and> mset (grid_blocks out 1 1) = mset (unstack (Tensor [2, 1, 1, 3] [1, 2, 3, 4, 5, 6 :: int]))"
proof -
  let ?P = "Tensor [2, 1, 1, 3] [1, 2, 3, 4, 5, 6 :: int]"
  have wf: "wf_tensor ?P" by (simp add: wf_tensor_def)
  have m: "measure_of ''ENTROPY'' = Some ENTROPY" by (simp add: measure_of_def)
  from reconstruct_from_patches_permutes
    [OF wf _ _ _ _ _ _ m, of 2 1 1 3 1 2 "\<lambda>m s t. - sum_list (data t)" ByMeasure]
  show ?thesis by auto
qed

text \<open>
  C8. With a measure identifier that is not one of the ten supported measures
  reconstruct_from_patches fails with UnsupportedMeasureError, and with no other
  identifier does it fail so; with a supported measure and a number of patches other
  than (height/patch_h)*(width/patch_w) it fails with ShapeError; it returns an image
  only when the measure is supported and the number of patches is that product.
\<close>

theorem reconstruct_from_patches_errors:
  "(measure_of mid = None \<longrightarrow>
      reconstruct_from_patches score P height width mid order_by = Inl UnsupportedMeasureError)
   \<and> (measure_of mid = Some m \<and> shape P = [n, ph, pw, c]
        \<and> n \<noteq> (nat height div ph) * (nat width div pw) \<longrightarrow>
      (\<exists>cause. reconstruct_from_patches score P height width mid order_by
                 = Inl (ShapeError cause)))
   \<and> (reconstruct_from_patches score P height width mid order_by = Inl UnsupportedMeasureError
        \<longrightarrow> measure_of mid = None)
   \<and> (reconstruct_from_patches score P height width mid order_by = Inr out \<longrightarrow>
        measure_of mid \<noteq> None
        \<and> (\<exists>k ph' pw' c'. shape P = [k, ph', pw', c']
              \<and> k = (nat height div ph') * (nat width div pw')))"
proof (intro conjI impI)
  assume "measure_of mid = None"
  then show "reconstruct_from_patches score P height width mid order_by
             = Inl UnsupportedMeasureError"
    by (simp add: reconstruct_from_patches_def)
next
  assume "measure_of mid = Some m \<and> shape P = [n, ph, pw, c]
          \<and> n \<noteq> (nat height div ph) * (nat width div pw)"
  then show "\<exists>cause. reconstruct_from_patches score P height width mid order_by
                      = Inl (ShapeError cause)"
    by (auto simp: reconstruct_from_patches_def)
next
  assume "reconstruct_from_patches score P height width mid order_by = Inl UnsupportedMeasureError"
  then show "measure_of mid = None"
    by (auto simp: reconstruct_from_patches_def Let_def
        split: option.splits list.splits if_splits)
next
  assume r: "reconstruct_from_patches score P height width mid order_by = Inr out"
  then show "measure_of mid \<noteq> None"
    by (auto simp: reconstruct_from_patches_def split: option.splits)
  from r show "\<exists>k ph' pw' c'. shape P = [k, ph', pw', c']
                 \<and> k = (nat height div ph') * (nat width div pw')"
    by (auto simp: reconstruct_from_patches_def Let_def
        split: option.splits list.splits if_splits)
qed

theorem reconstruct_from_patches_errors_witness:
  "reconstruct_from_patches (\<lambda>m s t. 0 :: nat) (Tensor [4, 1, 1, 3] (replicate 12 (0 :: int)))
     2 2 ''COSINE'' Identity = Inl UnsupportedMeasureError
   \<and> (\<exists>cause. reconstruct_from_patches (\<lambda>m s t. 0 :: nat)
                 (Tensor [3, 1, 1, 3] (replicate 9 (0 :: int))) 2 2 ''KL'' Identity
               = Inl (ShapeError cause))"
proof -
  have 1: "measure_of ''COSINE'' = None" by (simp add: measure_of_def)
  have 2: "measure_of ''KL'' = Some KL" by (simp add: measure_of_def)
  show ?thesis
    using reconstruct_from_patches_errors
        [where mid = "''COSINE''" and score = "\<lambda>m s t. 0 :: nat"
           and P = "Tensor [4, 1, 1, 3] (replicate 12 (0 :: int))" and height = 2 and width = 2
           and order_by = Identity]
      reconstruct_from_patches_errors
        [where mid = "''KL''" and score = "\<lambda>m s t. 0 :: nat"
           and P = "Tensor [3, 1, 1, 3] (replicate 9 (0 :: int))" and height = 2 and width = 2
           and order_by = Identity and m = KL and n = 3 and ph = 1 and pw = 1 and c = 3]
    by (simp add: 1 2)
qed

end
